theory Spec2Isabelle
  imports Complex_Main "HOL-Library.AList"
begin

section \<open>JavaScript numbers\<close>

text \<open>
  A JavaScript number is an IEEE double. The model keeps its four kinds of values: the
  finite ones (every finite double is a rational), the two infinities and \<open>NaN\<close>, with
  the propagation rules of IEEE arithmetic. Two things are left out and named here once:
  finite arithmetic is exact (no rounding, no overflow to infinity), and there is no
  negative zero (it compares and adds like zero; dividing by zero treats it as \<open>+0\<close>).
\<close>

datatype jsnum = Num rat | PInf | NInf | NaN

fun jsneg :: "jsnum \<Rightarrow> jsnum" where
  "jsneg (Num a) = Num (- a)"
| "jsneg PInf = NInf"
| "jsneg NInf = PInf"
| "jsneg NaN = NaN"

fun jsadd :: "jsnum \<Rightarrow> jsnum \<Rightarrow> jsnum" where
  "jsadd NaN _ = NaN"
| "jsadd _ NaN = NaN"
| "jsadd PInf NInf = NaN"
| "jsadd NInf PInf = NaN"
| "jsadd PInf _ = PInf"
| "jsadd _ PInf = PInf"
| "jsadd NInf _ = NInf"
| "jsadd _ NInf = NInf"
| "jsadd (Num a) (Num b) = Num (a + b)"

definition jssub :: "jsnum \<Rightarrow> jsnum \<Rightarrow> jsnum" where
  "jssub a b = jsadd a (jsneg b)"

definition scaleInf :: "rat \<Rightarrow> jsnum" where
  \<comment> \<open>\<open>Infinity * a\<close> for a finite \<open>a\<close>\<close>
  "scaleInf a = (if a = 0 then NaN else if 0 < a then PInf else NInf)"

fun jsmul :: "jsnum \<Rightarrow> jsnum \<Rightarrow> jsnum" where
  "jsmul NaN _ = NaN"
| "jsmul _ NaN = NaN"
| "jsmul (Num a) (Num b) = Num (a * b)"
| "jsmul (Num a) PInf = scaleInf a"
| "jsmul (Num a) NInf = scaleInf (- a)"
| "jsmul PInf (Num b) = scaleInf b"
| "jsmul NInf (Num b) = scaleInf (- b)"
| "jsmul PInf PInf = PInf"
| "jsmul PInf NInf = NInf"
| "jsmul NInf PInf = NInf"
| "jsmul NInf NInf = PInf"

fun jsdiv :: "jsnum \<Rightarrow> jsnum \<Rightarrow> jsnum" where
  "jsdiv NaN _ = NaN"
| "jsdiv _ NaN = NaN"
| "jsdiv (Num a) (Num b) = (if b = 0 then scaleInf a else Num (a / b))"
| "jsdiv (Num a) _ = Num 0"
| "jsdiv PInf (Num b) = (if 0 \<le> b then PInf else NInf)"
| "jsdiv NInf (Num b) = (if 0 \<le> b then NInf else PInf)"
| "jsdiv _ _ = NaN"

text \<open>The comparisons \<open>a < b\<close> and \<open>a <= b\<close>: false as soon as one side is \<open>NaN\<close>.\<close>

fun jslt :: "jsnum \<Rightarrow> jsnum \<Rightarrow> bool" where
  "jslt NaN _ = False"
| "jslt _ NaN = False"
| "jslt (Num a) (Num b) = (a < b)"
| "jslt _ NInf = False"
| "jslt PInf _ = False"
| "jslt _ _ = True"

fun jsle :: "jsnum \<Rightarrow> jsnum \<Rightarrow> bool" where
  "jsle NaN _ = False"
| "jsle _ NaN = False"
| "jsle (Num a) (Num b) = (a \<le> b)"
| "jsle NInf _ = True"
| "jsle _ PInf = True"
| "jsle _ _ = False"

fun jsfloor :: "jsnum \<Rightarrow> jsnum" where
  \<comment> \<open>\<open>Math.floor\<close>\<close>
  "jsfloor (Num a) = Num (of_int \<lfloor>a\<rfloor>)"
| "jsfloor x = x"

section \<open>Values and arrays\<close>

text \<open>
  What a JavaScript expression of object type can evaluate to: \<open>null\<close>, \<open>undefined\<close> or
  an object. \<open>weightedRandom\<close> returns \<open>null\<close> explicitly; an array read outside the
  array yields \<open>undefined\<close>.
\<close>

datatype 'a ref = Null | Undefined | Obj 'a

definition elemAt :: "'a list \<Rightarrow> jsnum \<Rightarrow> 'a ref" where
  \<comment> \<open>\<open>xs[n]\<close> for a number \<open>n\<close>: an element only at an integer index inside the array\<close>
  "elemAt xs n =
     (case n of
        Num q \<Rightarrow>
          if q = of_int \<lfloor>q\<rfloor> \<and> 0 \<le> q \<and> q < of_nat (length xs)
          then Obj (xs ! nat \<lfloor>q\<rfloor>) else Undefined
      | _ \<Rightarrow> Undefined)"

section \<open>The sampler: \<open>weightedRandom\<close>\<close>

record item =
  name :: string
  weight :: jsnum

definition totalWeight :: "item list \<Rightarrow> jsnum" where
  \<comment> \<open>\<open>items.reduce((sum, item) => sum + item.weight, 0)\<close>: a left fold from 0\<close>
  "totalWeight items = foldl (\<lambda>sum item. jsadd sum (weight item)) (Num 0) items"

text \<open>
  The \<open>for (const item of items)\<close> loop of lines 22--27, with the running value
  \<open>random\<close> as its state. \<open>Some item\<close> is the \<open>return item\<close> inside the loop, \<open>None\<close>
  is the loop running to its end.
\<close>

fun pick :: "jsnum \<Rightarrow> item list \<Rightarrow> item option" where
  "pick random [] = None"
| "pick random (item # rest) =
     (let random' = jssub random (weight item)
      in if jslt random' (Num 0) then Some item else pick random' rest)"

text \<open>
  \<open>weightedRandom items u\<close>: the argument is \<open>None\<close> when the caller passes \<open>null\<close> or
  \<open>undefined\<close> (the \<open>!items\<close> test), and \<open>u\<close> is the value that the one call of
  \<open>Math.random()\<close> returns; the specification of \<open>Math.random\<close> puts it in \<open>[0, 1)\<close>.
  The function has no \<open>throw\<close> and calls nothing that throws on an array of items, so
  the model has no error result.
\<close>

definition weightedRandom :: "item list option \<Rightarrow> rat \<Rightarrow> item ref" where
  "weightedRandom items u =
     (case items of
        None \<Rightarrow> Null
      | Some xs \<Rightarrow>
          if length xs = 0 then Null
          else
            let total = totalWeight xs in
            if jsle total (Num 0)
            then
              let randomIndex = jsfloor (jsmul (Num u) (Num (of_nat (length xs))))
              in elemAt xs randomIndex
            else
              let random = jsmul (Num u) total in
              (case pick random xs of
                 Some item \<Rightarrow> Obj item
               | None \<Rightarrow> elemAt xs (jssub (Num (of_nat (length xs))) (Num 1))))"

text \<open>
  Vocabulary for the properties of the loop: the value of \<open>random\<close> after the loop body
  has run over a list of items, and the cumulative weight of the first \<open>k\<close> items,
  summed the way \<open>totalWeight\<close> sums.
\<close>

definition running :: "jsnum \<Rightarrow> item list \<Rightarrow> jsnum" where
  "running random xs = foldl (\<lambda>r item. jssub r (weight item)) random xs"



fun ratOf :: "jsnum \<Rightarrow> rat" where
  "ratOf (Num q) = q"
| "ratOf _ = 0"


section \<open>The presentation layer\<close>

subsection \<open>\<open>parseInt(string, 10)\<close> and \<open>|| 1\<close>\<close>

text \<open>
  \<open>parseInt\<close> converts its argument to a string, skips leading white space, reads an
  optional sign and then the longest run of decimal digits; with no digit the result is
  \<open>NaN\<close>. The radix is 10, so no \<open>0x\<close> prefix is recognised. The model is on byte
  strings: the white space characters are the ASCII ones.
\<close>

definition isWhiteSpace :: "char \<Rightarrow> bool" where
  "isWhiteSpace c = (c \<in> set [CHR 0x09, CHR 0x0A, CHR 0x0B, CHR 0x0C, CHR 0x0D, CHR 0x20])"

definition isDigit :: "char \<Rightarrow> bool" where
  "isDigit c = (48 \<le> (of_char c :: nat) \<and> (of_char c :: nat) \<le> 57)"

definition digitValue :: "char \<Rightarrow> nat" where
  "digitValue c = of_char c - 48"

definition digitsValue :: "string \<Rightarrow> nat" where
  "digitsValue ds = foldl (\<lambda>n c. 10 * n + digitValue c) 0 ds"

definition parseInt :: "string \<Rightarrow> jsnum" where
  "parseInt inputString =
     (let S = dropWhile isWhiteSpace inputString;
          sign = (if S \<noteq> [] \<and> hd S = CHR ''-'' then - 1 else 1 :: int);
          S' = (if S \<noteq> [] \<and> (hd S = CHR ''+'' \<or> hd S = CHR ''-'') then tl S else S);
          Z = takeWhile isDigit S'
      in if Z = [] then NaN else Num (of_int (sign * int (digitsValue Z))))"

definition jsor :: "jsnum \<Rightarrow> jsnum \<Rightarrow> jsnum" where
  \<comment> \<open>\<open>a || b\<close> on numbers: the falsy numbers are \<open>NaN\<close> and zero\<close>
  "jsor a b = (if a = NaN \<or> a = Num 0 then b else a)"

subsection \<open>Options and items\<close>

text \<open>
  An element of the \<open>options\<close> array. Its \<open>weight\<close> is read only as the argument of
  \<open>parseInt\<close>, which sees the string the value converts to (\<open>"5"\<close> for the number 5,
  \<open>"NaN"\<close> for \<open>NaN\<close>, \<open>"undefined"\<close> for a missing field); the record holds that
  string.
\<close>

record opt =
  optName :: string
  optWeight :: string

definition toItems :: "opt list \<Rightarrow> item list" where
  \<comment> \<open>\<open>options.map((opt) => ({name: opt.name, weight: parseInt(opt.weight, 10) || 1}))\<close>\<close>
  "toItems opts = map (\<lambda>opt. \<lparr>name = optName opt, weight = jsor (parseInt (optWeight opt)) (Num 1)\<rparr>) opts"

subsection \<open>The tally object\<close>

text \<open>
  \<open>results\<close> is a plain object (\<open>{}\<close>) used as a dictionary from names to counts. Its
  own properties are an association list in insertion order. A plain object inherits
  from \<open>Object.prototype\<close>, whose accessor \<open>__proto__\<close> takes every assignment to that
  key and ignores a value that is not an object: such an assignment creates no property.
  Reading a key that is not an own property yields \<open>undefined\<close> or an inherited object
  or function, and each of them converts to the number \<open>NaN\<close>.
\<close>

type_synonym tally = "(string \<times> jsnum) list"

definition setProp :: "tally \<Rightarrow> string \<Rightarrow> jsnum \<Rightarrow> tally" where
  \<comment> \<open>\<open>results[k] = v\<close> for a number \<open>v\<close>\<close>
  "setProp results k v = (if k = ''__proto__'' then results else AList.update k v results)"

definition getNumber :: "tally \<Rightarrow> string \<Rightarrow> jsnum" where
  \<comment> \<open>\<open>results[k]\<close> converted to a number\<close>
  "getNumber results k = (case map_of results k of Some v \<Rightarrow> v | None \<Rightarrow> NaN)"

definition increment :: "tally \<Rightarrow> string \<Rightarrow> tally" where
  \<comment> \<open>\<open>results[k]++\<close>\<close>
  "increment results k = setProp results k (jsadd (getNumber results k) (Num 1))"

definition initResults :: "item list \<Rightarrow> tally" where
  \<comment> \<open>\<open>items.forEach((item) => { results[item.name] = 0; })\<close> on \<open>results = {}\<close>\<close>
  "initResults items = foldl (\<lambda>results item. setProp results (name item) (Num 0)) [] items"

subsection \<open>Page state\<close>

text \<open>
  The state the two event handlers work on. \<open>options\<close> is the variable of the enclosing
  scope. \<open>Math.random\<close> is a sequence \<open>rnd\<close> of draws, and \<open>draws\<close> counts how many
  of them have been consumed. \<open>calls\<close> records the argument of every call of
  \<open>weightedRandom\<close>, oldest first. \<open>alerts\<close> are the messages shown by \<open>alert\<close> and
  \<open>simulationResult\<close> the rows appended to the result element (its heading is left
  out). Canvas drawing and the animation are not part of the state.
\<close>

datatype message = NeedTwoOptions
  \<comment> \<open>the text of lines 186 and 247: please enter two or more options\<close>

datatype error = TypeError

record row =
  rowName :: string
  count :: jsnum
  percentage :: jsnum
  weightPercentage :: jsnum

record page =
  options :: "opt list"
  draws :: nat
  calls :: "item list list"
  alerts :: "message list"
  simulationResult :: "row list"

definition callSampler :: "(nat \<Rightarrow> rat) \<Rightarrow> item list \<Rightarrow> page \<Rightarrow> item ref \<times> page" where
  \<comment> \<open>\<open>weightedRandom(items)\<close>: it draws once, unless the list is empty\<close>
  "callSampler rnd items s =
     (weightedRandom (Some items) (rnd (draws s)),
      s\<lparr>draws := draws s + (if items = [] then 0 else 1), calls := calls s @ [items]\<rparr>)"

subsection \<open>\<open>runSimulation\<close>\<close>

definition TRIAL_COUNT :: nat where
  "TRIAL_COUNT = 1000"

text \<open>
  The loop of lines 256--261, by the number of iterations still to run. \<open>if (winner)\<close>
  is true exactly for an object.
\<close>

fun runTrials :: "(nat \<Rightarrow> rat) \<Rightarrow> nat \<Rightarrow> item list \<Rightarrow> tally \<Rightarrow> page \<Rightarrow> tally \<times> page" where
  "runTrials rnd 0 items results s = (results, s)"
| "runTrials rnd (Suc n) items results s =
     (let (winner, s') = callSampler rnd items s;
          results' = (case winner of Obj w \<Rightarrow> increment results (name w) | _ \<Rightarrow> results)
      in runTrials rnd n items results' s')"

text \<open>
  One pass of the loop of lines 266--280 for the property \<open>(nm, cnt)\<close> of \<open>results\<close>.
  \<open>items.find\<close> yields \<open>undefined\<close> when no item has the name, and \<open>item.weight\<close>,
  evaluated only when \<open>totalWeight > 0\<close>, then throws a \<open>TypeError\<close>. The numbers are
  kept as they are; \<open>toFixed(1)\<close> only formats them.
\<close>

definition renderRow :: "item list \<Rightarrow> jsnum \<Rightarrow> string \<times> jsnum \<Rightarrow> error + row" where
  "renderRow items sumWeight p =
     (let nm = fst p; cnt = snd p;
          pct = jsmul (jsdiv cnt (Num (of_nat TRIAL_COUNT))) (Num 100);
          uniform = jsdiv (Num 100) (Num (of_nat (length items)))
      in case List.find (\<lambda>it. name it = nm) items of
           Some item \<Rightarrow>
             Inr \<lparr>rowName = nm, count = cnt, percentage = pct,
                  weightPercentage =
                    (if jslt (Num 0) sumWeight then jsmul (jsdiv (weight item) sumWeight) (Num 100)
                     else uniform)\<rparr>
         | None \<Rightarrow>
             if jslt (Num 0) sumWeight then Inl TypeError
             else Inr \<lparr>rowName = nm, count = cnt, percentage = pct, weightPercentage = uniform\<rparr>)"

fun renderRows :: "item list \<Rightarrow> jsnum \<Rightarrow> tally \<Rightarrow> error + row list" where
  "renderRows items sumWeight [] = Inr []"
| "renderRows items sumWeight (p # ps) =
     (case renderRow items sumWeight p of
        Inl e \<Rightarrow> Inl e
      | Inr r \<Rightarrow> (case renderRows items sumWeight ps of Inl e \<Rightarrow> Inl e | Inr rs \<Rightarrow> Inr (r # rs)))"

text \<open>
  \<open>runSimulation\<close>. The rows are in the order of insertion into \<open>results\<close>; the rule of
  \<open>for ... in\<close> that puts keys that look like array indices first is not modelled. An
  uncaught \<open>TypeError\<close> is the result \<open>Inl TypeError\<close>.
\<close>

definition runSimulation :: "(nat \<Rightarrow> rat) \<Rightarrow> page \<Rightarrow> error + page" where
  "runSimulation rnd s =
     (let items = toItems (options s) in
      if length items < 2 then Inr (s\<lparr>alerts := alerts s @ [NeedTwoOptions]\<rparr>)
      else
        let (results, s') = runTrials rnd TRIAL_COUNT items (initResults items) s;
            sumWeight = totalWeight items
        in case renderRows items sumWeight results of
             Inl e \<Rightarrow> Inl e
           | Inr rows \<Rightarrow> Inr (s'\<lparr>simulationResult := rows\<rparr>))"

subsection \<open>\<open>spin\<close>\<close>


subsection \<open>Vocabulary for the tally\<close>

text \<open>
  The sum of the counts, added the way JavaScript adds numbers; the tallies whose counts
  are all natural numbers; and the sum of such counts as a rational.
\<close>

definition sumCounts :: "tally \<Rightarrow> jsnum" where
  "sumCounts results = foldl (\<lambda>a p. jsadd a (snd p)) (Num 0) results"

definition natCounts :: "tally \<Rightarrow> bool" where
  "natCounts results = (\<forall>p\<in>set results. \<exists>c::nat. snd p = Num (of_nat c))"

definition countTotal :: "tally \<Rightarrow> rat" where
  "countTotal results = sum_list (map (\<lambda>p. ratOf (snd p)) results)"

section \<open>Basic facts about the sampler\<close>

lemma elemAt_nat: "i < length xs \<Longrightarrow> elemAt xs (Num (of_nat i)) = Obj (xs ! i)"
  by (simp add: elemAt_def)

lemma elemAt_last: "xs \<noteq> [] \<Longrightarrow> elemAt xs (jssub (Num (of_nat (length xs))) (Num 1)) = Obj (last xs)"
proof -
  assume ne: "xs \<noteq> []"
  then have eq: "(of_nat (length xs) :: rat) - 1 = of_nat (length xs - 1)"
    by (cases xs) simp_all
  have "elemAt xs (jssub (Num (of_nat (length xs))) (Num 1)) = elemAt xs (Num (of_nat (length xs - 1)))"
    by (simp only: jssub_def jsneg.simps jsadd.simps eq [symmetric]) simp
  also have "\<dots> = Obj (xs ! (length xs - 1))"
    using ne by (intro elemAt_nat) simp
  finally show ?thesis
    using ne by (simp add: last_conv_nth)
qed

lemma elemAt_not_Null: "elemAt xs n \<noteq> Null"
  by (simp add: elemAt_def split: jsnum.splits)

section \<open>The loop of the sampler\<close>

lemma pick_mem: "pick r xs = Some it \<Longrightarrow> it \<in> set xs"
  by (induction xs arbitrary: r) (auto simp: Let_def split: if_splits)















lemma floor_nat_less:
  assumes "0 \<le> q" "rat_of_int \<lfloor>q\<rfloor> < rat_of_nat n"
  shows "nat \<lfloor>q\<rfloor> < n"
proof -
  from assms(2) have "rat_of_int \<lfloor>q\<rfloor> < rat_of_int (int n)" by simp
  then have "\<lfloor>q\<rfloor> < int n" by (simp only: of_int_less_iff)
  moreover have "0 \<le> \<lfloor>q\<rfloor>" using assms(1) by simp
  ultimately show ?thesis by linarith
qed

lemma floor_index_range:
  fixes u :: rat
  assumes "0 \<le> u" "u < 1" "0 < n"
  shows "0 \<le> \<lfloor>u * of_nat n\<rfloor>" "nat \<lfloor>u * of_nat n\<rfloor> < n"
proof -
  have nn: "0 \<le> u * of_nat n" using assms by simp
  then show "0 \<le> \<lfloor>u * of_nat n\<rfloor>" by simp
  have "u * of_nat n < of_nat n" using assms by simp
  then have "\<lfloor>u * of_nat n\<rfloor> < int n" by (simp add: floor_less_iff)
  moreover have "0 \<le> \<lfloor>u * of_nat n\<rfloor>" using nn by simp
  ultimately show "nat \<lfloor>u * of_nat n\<rfloor> < n" by linarith
qed

lemma weightedRandom_uniform:
  assumes "xs \<noteq> []" "jsle (totalWeight xs) (Num 0)"
  shows "weightedRandom (Some xs) u = elemAt xs (Num (of_int \<lfloor>u * of_nat (length xs)\<rfloor>))"
  using assms by (simp add: weightedRandom_def Let_def)

lemma weightedRandom_weighted:
  assumes "xs \<noteq> []" "\<not> jsle (totalWeight xs) (Num 0)"
  shows "weightedRandom (Some xs) u =
    (case pick (jsmul (Num u) (totalWeight xs)) xs of Some item \<Rightarrow> Obj item | None \<Rightarrow> Obj (last xs))"
  using assms by (simp add: weightedRandom_def Let_def elemAt_last split: option.splits)

lemma elemAt_floor:
  fixes u :: rat
  assumes "0 \<le> u" "u < 1" "xs \<noteq> []"
  shows "elemAt xs (Num (of_int \<lfloor>u * of_nat (length xs)\<rfloor>)) = Obj (xs ! nat \<lfloor>u * of_nat (length xs)\<rfloor>)"
proof -
  have n: "0 < length xs" using assms by simp
  note r = floor_index_range [OF assms(1,2) n]
  have "(of_int \<lfloor>u * of_nat (length xs)\<rfloor> :: rat) = of_nat (nat \<lfloor>u * of_nat (length xs)\<rfloor>)"
    using r(1) by simp
  then show ?thesis using elemAt_nat [OF r(2)] by simp
qed

lemma weightedRandom_Obj_mem:
  assumes "weightedRandom (Some xs) u = Obj w"
  shows "w \<in> set xs"
proof -
  have ne: "xs \<noteq> []" using assms by (auto simp: weightedRandom_def)
  show ?thesis
  proof (cases "jsle (totalWeight xs) (Num 0)")
    case True
    from assms weightedRandom_uniform [OF ne True, of u]
    have "elemAt xs (Num (of_int \<lfloor>u * of_nat (length xs)\<rfloor>)) = Obj w" by simp
    then have lo: "0 \<le> u * of_nat (length xs)"
      and hi: "rat_of_int \<lfloor>u * of_nat (length xs)\<rfloor> < of_nat (length xs)"
      and w: "w = xs ! nat \<lfloor>u * of_nat (length xs)\<rfloor>"
      by (auto simp: elemAt_def split: if_splits)
    from lo hi have "nat \<lfloor>u * of_nat (length xs)\<rfloor> < length xs"
      by (rule floor_nat_less)
    then show ?thesis using w by simp
  next
    case False
    from assms weightedRandom_weighted [OF ne False, of u] ne show ?thesis
      by (auto split: option.splits dest: pick_mem)
  qed
qed

lemma weightedRandom_member:
  assumes "xs \<noteq> []" "0 \<le> u" "u < 1"
  shows "\<exists>it\<in>set xs. weightedRandom (Some xs) u = Obj it"
proof (cases "jsle (totalWeight xs) (Num 0)")
  case True
  have "nat \<lfloor>u * of_nat (length xs)\<rfloor> < length xs"
    using assms by (intro floor_index_range) simp_all
  then have "xs ! nat \<lfloor>u * of_nat (length xs)\<rfloor> \<in> set xs" by simp
  then show ?thesis
    using weightedRandom_uniform [OF assms(1) True, of u] elemAt_floor [OF assms(2,3,1)]
    by auto
next
  case False
  show ?thesis
  proof (cases "pick (jsmul (Num u) (totalWeight xs)) xs")
    case None
    then show ?thesis
      using False assms(1) by (simp add: weightedRandom_weighted)
  next
    case (Some it)
    then have "it \<in> set xs" by (rule pick_mem)
    then show ?thesis
      using False Some assms(1) by (simp add: weightedRandom_weighted)
  qed
qed


lemma foldl_add_NaN: "foldl (\<lambda>sum item. jsadd sum (weight item)) NaN xs = NaN"
  by (induction xs) simp_all

lemma jsadd_NaN_right: "jsadd a NaN = NaN"
  by (cases a) simp_all

lemma foldl_add_has_NaN:
  "\<exists>x\<in>set xs. weight x = NaN \<Longrightarrow> foldl (\<lambda>sum item. jsadd sum (weight item)) a xs = NaN"
proof (induction xs arbitrary: a)
  case Nil
  then show ?case by simp
next
  case (Cons x xs)
  show ?case
  proof (cases "weight x = NaN")
    case True
    then show ?thesis by (simp add: jsadd_NaN_right foldl_add_NaN)
  next
    case False
    with Cons.prems have "\<exists>x\<in>set xs. weight x = NaN" by simp
    from Cons.IH [OF this] show ?thesis by simp
  qed
qed

lemma jssub_NaN: "jssub NaN w = NaN"
  by (simp add: jssub_def)

lemma running_NaN: "running NaN xs = NaN"
  by (induction xs) (simp_all add: running_def jssub_NaN)

lemma pick_NaN: "pick NaN xs = None"
  by (induction xs) (simp_all add: jssub_NaN)

section \<open>Properties of the sampler\<close>




text \<open>
  C2. For a non-empty list and a draw in \<open>[0, 1)\<close> the sampler returns an object, and
  that object is one of the items of the list; when the weighted loop runs to its end
  without a negative running value, the result is the last item.
\<close>

theorem sampler_returns_supplied_item:
  assumes "xs \<noteq> []" "0 \<le> u" "u < 1"
  shows "(\<exists>it\<in>set xs. weightedRandom (Some xs) u = Obj it)
       \<and> (\<not> jsle (totalWeight xs) (Num 0) \<and> pick (jsmul (Num u) (totalWeight xs)) xs = None
            \<longrightarrow> weightedRandom (Some xs) u = Obj (last xs))"
  using weightedRandom_member [OF assms] assms(1)
  by (auto simp: weightedRandom_weighted)

theorem sampler_returns_supplied_item_witness:
  "[\<lparr>name = ''X'', weight = Num 1\<rparr>, \<lparr>name = ''Y'', weight = NaN\<rparr>] \<noteq> []
   \<and> (0::rat) \<le> 1/2 \<and> (1/2::rat) < 1
   \<and> \<not> jsle (totalWeight [\<lparr>name = ''X'', weight = Num 1\<rparr>, \<lparr>name = ''Y'', weight = NaN\<rparr>]) (Num 0)
   \<and> pick (jsmul (Num (1/2)) (totalWeight [\<lparr>name = ''X'', weight = Num 1\<rparr>, \<lparr>name = ''Y'', weight = NaN\<rparr>]))
        [\<lparr>name = ''X'', weight = Num 1\<rparr>, \<lparr>name = ''Y'', weight = NaN\<rparr>] = None
   \<and> weightedRandom (Some [\<lparr>name = ''X'', weight = Num 1\<rparr>, \<lparr>name = ''Y'', weight = NaN\<rparr>]) (1/2)
        = Obj (last [\<lparr>name = ''X'', weight = Num 1\<rparr>, \<lparr>name = ''Y'', weight = NaN\<rparr>])"
proof -
  let ?xs = "[\<lparr>name = ''X'', weight = Num 1\<rparr>, \<lparr>name = ''Y'', weight = NaN\<rparr>]"
  have h1: "?xs \<noteq> []" and h2: "(0::rat) \<le> 1/2" and h3: "(1/2::rat) < 1" by simp_all
  have t: "totalWeight ?xs = NaN" by (simp add: totalWeight_def)
  have a: "\<not> jsle (totalWeight ?xs) (Num 0)" by (simp add: t)
  have b: "pick (jsmul (Num (1/2)) (totalWeight ?xs)) ?xs = None" by (simp add: t jssub_def)
  from sampler_returns_supplied_item [OF h1 h2 h3] a b
  have "weightedRandom (Some ?xs) (1/2) = Obj (last ?xs)" by blast
  with h1 h2 h3 a b show ?thesis by blast
qed



text \<open>
  C8. For a non-empty list with a \<open>NaN\<close> weight and every draw: the total weight is
  \<open>NaN\<close>, the test \<open>totalWeight <= 0\<close> is false, the running value starts as \<open>NaN\<close>
  and stays \<open>NaN\<close>, never below zero, the loop runs to its end, and the sampler returns
  the last item.
\<close>

theorem nan_weight_returns_last:
  assumes "xs \<noteq> []" "\<exists>x\<in>set xs. weight x = NaN"
  shows "totalWeight xs = NaN
       \<and> \<not> jsle (totalWeight xs) (Num 0)
       \<and> jsmul (Num u) (totalWeight xs) = NaN
       \<and> (\<forall>k. running (jsmul (Num u) (totalWeight xs)) (take k xs) = NaN
              \<and> \<not> jslt (running (jsmul (Num u) (totalWeight xs)) (take k xs)) (Num 0))
       \<and> pick (jsmul (Num u) (totalWeight xs)) xs = None
       \<and> weightedRandom (Some xs) u = Obj (last xs)"
proof -
  have t: "totalWeight xs = NaN"
    using assms(2) by (simp add: totalWeight_def foldl_add_has_NaN)
  then have nle: "\<not> jsle (totalWeight xs) (Num 0)" by simp
  show ?thesis
    using t weightedRandom_weighted [OF assms(1) nle, of u]
    by (simp add: running_NaN pick_NaN)
qed

theorem nan_weight_returns_last_witness:
  "[\<lparr>name = ''X'', weight = NaN\<rparr>, \<lparr>name = ''Y'', weight = Num 5\<rparr>] \<noteq> []
   \<and> (\<exists>x\<in>set [\<lparr>name = ''X'', weight = NaN\<rparr>, \<lparr>name = ''Y'', weight = Num 5\<rparr>]. weight x = NaN)
   \<and> weightedRandom (Some [\<lparr>name = ''X'', weight = NaN\<rparr>, \<lparr>name = ''Y'', weight = Num 5\<rparr>]) 0
        = Obj \<lparr>name = ''Y'', weight = Num 5\<rparr>"
proof -
  let ?xs = "[\<lparr>name = ''X'', weight = NaN\<rparr>, \<lparr>name = ''Y'', weight = Num 5\<rparr>]"
  have h1: "?xs \<noteq> []" and h2: "\<exists>x\<in>set ?xs. weight x = NaN" by simp_all
  from nan_weight_returns_last [OF h1 h2, of 0]
  have "weightedRandom (Some ?xs) 0 = Obj (last ?xs)" by blast
  then have "weightedRandom (Some ?xs) 0 = Obj \<lparr>name = ''Y'', weight = Num 5\<rparr>" by simp
  with h1 h2 show ?thesis by blast
qed

text \<open>
  C4. The sampler returns \<open>null\<close> exactly when the list is absent or empty, whatever
  the random draw is. The model is a total function into \<open>item ref\<close>: there is no
  exception to raise.
\<close>

theorem weightedRandom_Null_iff:
  "weightedRandom items u = Null \<longleftrightarrow> (items = None \<or> items = Some [])"
  by (cases items)
     (auto simp: weightedRandom_def Let_def elemAt_not_Null split: option.splits)

section \<open>Parsing and normalising weights\<close>

lemmas parse_eval = parseInt_def isWhiteSpace_def isDigit_def digitValue_def digitsValue_def Let_def



section \<open>The trial loop\<close>

lemma length_toItems: "length (toItems opts) = length opts"
  by (simp add: toItems_def)

lemma callSampler_fst: "fst (callSampler rnd items s) = weightedRandom (Some items) (rnd (draws s))"
  by (simp add: callSampler_def)

lemma callSampler_snd:
  "snd (callSampler rnd items s)
     = s\<lparr>draws := draws s + (if items = [] then 0 else 1), calls := calls s @ [items]\<rparr>"
  by (simp add: callSampler_def)

lemma runTrials_Suc:
  "runTrials rnd (Suc n) items results s =
     runTrials rnd n items
       (case fst (callSampler rnd items s) of Obj w \<Rightarrow> increment results (name w) | _ \<Rightarrow> results)
       (snd (callSampler rnd items s))"
  by (simp add: case_prod_beta Let_def)

lemma runTrials_page:
  "snd (runTrials rnd n items results s)
     = s\<lparr>draws := draws s + (if items = [] then 0 else n), calls := calls s @ replicate n items\<rparr>"
proof (induction n arbitrary: results s)
  case 0
  then show ?case by simp
next
  case (Suc n)
  show ?case
    unfolding runTrials_Suc Suc.IH callSampler_snd
    by (simp add: replicate_append_same)
qed

lemma keys_setProp:
  "map fst (setProp results k v) =
     (if k = ''__proto__'' \<or> k \<in> set (map fst results) then map fst results else map fst results @ [k])"
  by (simp add: setProp_def update_keys)

lemma keys_increment:
  "map fst (increment results k) =
     (if k = ''__proto__'' \<or> k \<in> set (map fst results) then map fst results else map fst results @ [k])"
  unfolding increment_def by (rule keys_setProp)

lemma keys_init_foldl:
  "set (map fst (foldl (\<lambda>results item. setProp results (name item) (Num 0)) acc items))
     = set (map fst acc) \<union> (name ` set items - {''__proto__''})"
proof (induction items arbitrary: acc)
  case Nil
  then show ?case by simp
next
  case (Cons x xs)
  show ?case unfolding foldl_Cons Cons.IH by (auto simp: keys_setProp)
qed

lemma distinct_init_foldl:
  "distinct (map fst acc) \<Longrightarrow>
   distinct (map fst (foldl (\<lambda>results item. setProp results (name item) (Num 0)) acc items))"
proof (induction items arbitrary: acc)
  case Nil
  then show ?case by simp
next
  case (Cons x xs)
  from Cons.prems have "distinct (map fst (setProp acc (name x) (Num 0)))"
    by (simp add: keys_setProp)
  from Cons.IH [OF this] show ?case by simp
qed

lemma keys_initResults: "set (map fst (initResults items)) = name ` set items - {''__proto__''}"
  unfolding initResults_def keys_init_foldl by simp

lemma distinct_initResults: "distinct (map fst (initResults items))"
  unfolding initResults_def by (rule distinct_init_foldl) simp

lemma keys_runTrials:
  assumes "name ` set items - {''__proto__''} \<subseteq> set (map fst results)"
  shows "map fst (fst (runTrials rnd n items results s)) = map fst results"
  using assms
proof (induction n arbitrary: results s)
  case 0
  then show ?case by simp
next
  case (Suc n)
  let ?r = "case fst (callSampler rnd items s) of Obj w \<Rightarrow> increment results (name w) | _ \<Rightarrow> results"
  have k: "map fst ?r = map fst results"
  proof (cases "fst (callSampler rnd items s)")
    case (Obj w)
    then have "w \<in> set items"
      by (auto simp: callSampler_fst dest: weightedRandom_Obj_mem)
    then have "name w = ''__proto__'' \<or> name w \<in> set (map fst results)"
      using Suc.prems by auto
    then show ?thesis using Obj by (auto simp: keys_increment)
  qed simp_all
  then have "name ` set items - {''__proto__''} \<subseteq> set (map fst ?r)"
    using Suc.prems by simp
  from Suc.IH [OF this] k show ?case
    unfolding runTrials_Suc by simp
qed

lemma foldl_counts:
  "natCounts results \<Longrightarrow>
     foldl (\<lambda>a p. jsadd a (snd p)) (Num a) results = Num (a + countTotal results)"
proof (induction results arbitrary: a)
  case Nil
  then show ?case by (simp add: countTotal_def)
next
  case (Cons p ps)
  from Cons.prems obtain c :: nat where c: "snd p = Num (of_nat c)"
    by (auto simp: natCounts_def)
  from Cons.prems have "natCounts ps" by (simp add: natCounts_def)
  from Cons.IH [OF this] c show ?case by (simp add: countTotal_def)
qed

lemma sumCounts_nat: "natCounts results \<Longrightarrow> sumCounts results = Num (countTotal results)"
  by (simp add: sumCounts_def foldl_counts)

lemma set_update_subset: "set (AList.update k v al) \<subseteq> insert (k, v) (set al)"
  by (induction al) auto

lemma init_foldl_zero:
  "\<forall>p\<in>set acc. snd p = Num 0 \<Longrightarrow>
     \<forall>p\<in>set (foldl (\<lambda>results item. setProp results (name item) (Num 0)) acc items). snd p = Num 0"
proof (induction items arbitrary: acc)
  case Nil
  then show ?case by simp
next
  case (Cons x xs)
  have "\<forall>p\<in>set (setProp acc (name x) (Num 0)). snd p = Num 0"
    using Cons.prems set_update_subset [of "name x" "Num 0" acc]
    by (auto simp: setProp_def)
  from Cons.IH [OF this] show ?case by simp
qed

lemma initResults_zero: "\<forall>p\<in>set (initResults items). snd p = Num 0"
  unfolding initResults_def by (rule init_foldl_zero) simp

lemma natCounts_initResults: "natCounts (initResults items)"
  unfolding natCounts_def
proof
  fix p assume "p \<in> set (initResults items)"
  with initResults_zero have "snd p = Num (of_nat 0)" by simp
  then show "\<exists>c::nat. snd p = Num (of_nat c)" ..
qed

lemma natCounts_Cons:
  "natCounts (p # ps) \<longleftrightarrow> (\<exists>c::nat. snd p = Num (of_nat c)) \<and> natCounts ps"
  by (simp add: natCounts_def)

lemma countTotal_Cons: "countTotal (p # ps) = ratOf (snd p) + countTotal ps"
  by (simp add: countTotal_def)

lemma countTotal_zero: "\<forall>p\<in>set results. snd p = Num 0 \<Longrightarrow> countTotal results = 0"
  by (induction results) (simp_all add: countTotal_def)

lemma countTotal_initResults: "countTotal (initResults items) = 0"
  by (rule countTotal_zero) (rule initResults_zero)

lemma increment_known:
  assumes "natCounts results" "k \<in> set (map fst results)" "k \<noteq> ''__proto__''"
  shows "natCounts (increment results k) \<and> countTotal (increment results k) = countTotal results + 1"
proof -
  have "natCounts (AList.update k (jsadd (getNumber results k) (Num 1)) results)
      \<and> countTotal (AList.update k (jsadd (getNumber results k) (Num 1)) results) = countTotal results + 1"
    using assms(1,2)
  proof (induction results)
    case Nil
    then show ?case by simp
  next
    case (Cons p ps)
    from Cons.prems(1) obtain c :: nat where c: "snd p = Num (of_nat c)"
      by (auto simp: natCounts_def)
    from Cons.prems(1) have ps: "natCounts ps" by (simp add: natCounts_def)
    show ?case
    proof (cases "fst p = k")
      case True
      then have g: "getNumber (p # ps) k = Num (of_nat c)"
        using c by (cases p) (simp add: getNumber_def)
      have v: "jsadd (Num (of_nat c)) (Num 1) = Num (of_nat (Suc c))" by simp
      have u: "AList.update k (Num (of_nat (Suc c))) (p # ps) = (k, Num (of_nat (Suc c))) # ps"
        using True by simp
      have "natCounts ((k, Num (of_nat (Suc c))) # ps)"
        unfolding natCounts_Cons using ps by (simp only: snd_conv) blast
      moreover have "countTotal ((k, Num (of_nat (Suc c))) # ps) = countTotal (p # ps) + 1"
        using c by (simp add: countTotal_Cons)
      ultimately show ?thesis unfolding g v u by simp
    next
      case False
      then have g: "getNumber (p # ps) k = getNumber ps k"
        by (cases p) (simp add: getNumber_def)
      from False Cons.prems(2) have "k \<in> set (map fst ps)" by auto
      from Cons.IH [OF ps this] show ?thesis
        using False Cons.prems(1) unfolding g by (simp add: natCounts_Cons countTotal_Cons)
    qed
  qed
  then show ?thesis using assms(3) by (simp add: increment_def setProp_def)
qed

lemma increment_proto: "increment results ''__proto__'' = results"
  by (simp add: increment_def setProp_def)

lemma counts_runTrials:
  assumes rnd: "\<forall>k. 0 \<le> rnd k \<and> rnd k < 1" and ne: "items \<noteq> []"
    and proto: "''__proto__'' \<notin> name ` set items"
    and keys: "name ` set items \<subseteq> set (map fst results)" and nat: "natCounts results"
  shows "natCounts (fst (runTrials rnd n items results s))
       \<and> countTotal (fst (runTrials rnd n items results s)) = countTotal results + of_nat n"
  using keys nat
proof (induction n arbitrary: results s)
  case 0
  then show ?case by simp
next
  case (Suc n)
  from rnd have "0 \<le> rnd (draws s)" "rnd (draws s) < 1" by simp_all
  from weightedRandom_member [OF ne this] obtain w where w: "w \<in> set items"
    and res: "fst (callSampler rnd items s) = Obj w"
    by (auto simp: callSampler_fst)
  from w proto have np: "name w \<noteq> ''__proto__''" by force
  from w Suc.prems(1) have k: "name w \<in> set (map fst results)" by auto
  note inc = increment_known [OF Suc.prems(2) k np]
  have keys': "name ` set items \<subseteq> set (map fst (increment results (name w)))"
    using Suc.prems(1) k by (simp add: keys_increment)
  from Suc.IH [OF keys' conjunct1 [OF inc]] inc show ?case
    unfolding runTrials_Suc res by simp
qed

text \<open>
  The tally is complete when no item is named \<open>__proto__\<close>: one entry per distinct
  name, every count initialised to 0 and a natural number afterwards, and the counts sum
  to the number of trials.
\<close>

lemma tally_complete_without_proto:
  assumes "\<forall>k. 0 \<le> rnd k \<and> rnd k < 1" "items \<noteq> []" "''__proto__'' \<notin> name ` set items"
  shows "set (map fst (fst (runTrials rnd n items (initResults items) s))) = name ` set items
       \<and> distinct (map fst (fst (runTrials rnd n items (initResults items) s)))
       \<and> (\<forall>p\<in>set (initResults items). snd p = Num 0)
       \<and> natCounts (fst (runTrials rnd n items (initResults items) s))
       \<and> sumCounts (fst (runTrials rnd n items (initResults items) s)) = Num (of_nat n)"
proof -
  let ?r = "fst (runTrials rnd n items (initResults items) s)"
  have k0: "set (map fst (initResults items)) = name ` set items"
    using assms(3) unfolding keys_initResults by auto
  then have k1: "name ` set items - {''__proto__''} \<subseteq> set (map fst (initResults items))"
    and k2: "name ` set items \<subseteq> set (map fst (initResults items))" by auto
  have keys: "map fst ?r = map fst (initResults items)"
    by (rule keys_runTrials [OF k1])
  note c = counts_runTrials [OF assms k2 natCounts_initResults, of n s]
  have "sumCounts ?r = Num (of_nat n)"
    using c by (simp add: sumCounts_nat countTotal_initResults)
  then show ?thesis
    using keys k0 distinct_initResults [of items] initResults_zero [of items] c
    by simp
qed





lemma runSimulation_short:
  "length (options s) < 2 \<Longrightarrow> runSimulation rnd s = Inr (s\<lparr>alerts := alerts s @ [NeedTwoOptions]\<rparr>)"
  by (simp add: runSimulation_def length_toItems)


section \<open>Properties of the simulation\<close>

lemma runTrials_const_winner:
  assumes "\<forall>i. weightedRandom (Some items) (rnd i) = Obj w" "name w = ''__proto__''"
  shows "fst (runTrials rnd n items results s) = results"
proof (induction n arbitrary: s)
  case 0
  then show ?case by simp
next
  case (Suc n)
  have "fst (callSampler rnd items s) = Obj w"
    using assms(1) by (simp add: callSampler_fst)
  then show ?case
    unfolding runTrials_Suc using Suc.IH assms(2) by (simp add: increment_proto)
qed


text \<open>
  C5 holds when no item is named \<open>__proto__\<close> (lemma \<open>tally_complete_without_proto\<close>)
  and fails for that name. The options \<open>__proto__\<close> and \<open>b\<close>, both of weight 1, are well
  formed; with every draw equal to 0 each of the 1000 trials is won by \<open>__proto__\<close>, yet
  the tally never has an entry for that name, and the counts sum to 0.
\<close>

theorem proto_name_loses_its_tally:
  "weightedRandom (Some (toItems [\<lparr>optName = ''__proto__'', optWeight = ''1''\<rparr>,
                                  \<lparr>optName = ''b'', optWeight = ''1''\<rparr>])) 0
     = Obj \<lparr>name = ''__proto__'', weight = Num 1\<rparr>
   \<and> initResults (toItems [\<lparr>optName = ''__proto__'', optWeight = ''1''\<rparr>,
                            \<lparr>optName = ''b'', optWeight = ''1''\<rparr>]) = [(''b'', Num 0)]
   \<and> runSimulation (\<lambda>i. 0)
        \<lparr>options = [\<lparr>optName = ''__proto__'', optWeight = ''1''\<rparr>, \<lparr>optName = ''b'', optWeight = ''1''\<rparr>],
         draws = 0, calls = [], alerts = [], simulationResult = []\<rparr>
     = Inr \<lparr>options = [\<lparr>optName = ''__proto__'', optWeight = ''1''\<rparr>, \<lparr>optName = ''b'', optWeight = ''1''\<rparr>],
            draws = TRIAL_COUNT,
            calls = replicate TRIAL_COUNT
                      [\<lparr>name = ''__proto__'', weight = Num 1\<rparr>, \<lparr>name = ''b'', weight = Num 1\<rparr>],
            alerts = [],
            simulationResult =
              [\<lparr>rowName = ''b'', count = Num 0, percentage = Num 0, weightPercentage = Num 50\<rparr>]\<rparr>"
proof -
  let ?opts = "[\<lparr>optName = ''__proto__'', optWeight = ''1''\<rparr>, \<lparr>optName = ''b'', optWeight = ''1''\<rparr>]"
  let ?items = "[\<lparr>name = ''__proto__'', weight = Num 1\<rparr>, \<lparr>name = ''b'', weight = Num 1\<rparr>]"
  let ?s = "\<lparr>options = ?opts, draws = 0, calls = [], alerts = [], simulationResult = []\<rparr>"
  have items: "toItems ?opts = ?items"
    by (simp add: toItems_def parse_eval jsor_def)
  have tw: "totalWeight ?items = Num 2" by (simp add: totalWeight_def)
  have win: "weightedRandom (Some ?items) 0 = Obj \<lparr>name = ''__proto__'', weight = Num 1\<rparr>"
    by (simp add: weightedRandom_def tw Let_def jssub_def)
  have init: "initResults ?items = [(''b'', Num 0)]"
    by (simp add: initResults_def setProp_def)
  have tally: "fst (runTrials (\<lambda>i. 0) TRIAL_COUNT ?items [(''b'', Num 0)] ?s) = [(''b'', Num 0)]"
    by (rule runTrials_const_winner [where w = "\<lparr>name = ''__proto__'', weight = Num 1\<rparr>"])
       (simp_all add: win)
  have rows: "renderRow ?items (Num 2) (''b'', Num 0)
      = Inr \<lparr>rowName = ''b'', count = Num 0, percentage = Num 0, weightPercentage = Num 50\<rparr>"
    by (simp add: renderRow_def Let_def TRIAL_COUNT_def)
  have "runSimulation (\<lambda>i. 0) ?s =
      Inr ((snd (runTrials (\<lambda>i. 0) TRIAL_COUNT ?items [(''b'', Num 0)] ?s))
        \<lparr>simulationResult :=
           [\<lparr>rowName = ''b'', count = Num 0, percentage = Num 0, weightPercentage = Num 50\<rparr>]\<rparr>)"
    by (simp add: runSimulation_def items init tw tally rows Let_def case_prod_beta)
  then have "runSimulation (\<lambda>i. 0) ?s =
      Inr \<lparr>options = ?opts, draws = TRIAL_COUNT, calls = replicate TRIAL_COUNT ?items, alerts = [],
           simulationResult =
             [\<lparr>rowName = ''b'', count = Num 0, percentage = Num 0, weightPercentage = Num 50\<rparr>]\<rparr>"
    unfolding runTrials_page by simp
  with win init items show ?thesis by simp
qed

text \<open>
  C6. With fewer than two options \<open>runSimulation\<close> shows the validation message and
  does nothing else: the sampler is not called, no draw is consumed and no row is
  written.
\<close>

theorem too_few_options_no_trials:
  assumes "length (options s) < 2"
  shows "\<exists>s'. runSimulation rnd s = Inr s'
       \<and> alerts s' = alerts s @ [NeedTwoOptions]
       \<and> calls s' = calls s \<and> draws s' = draws s
       \<and> simulationResult s' = simulationResult s \<and> options s' = options s"
  using runSimulation_short [OF assms, of rnd] by simp

theorem too_few_options_no_trials_witness:
  "length (options \<lparr>options = [\<lparr>optName = ''only'', optWeight = ''3''\<rparr>], draws = 0, calls = [],
                     alerts = [], simulationResult = []\<rparr>) < 2
   \<and> (\<exists>s'. runSimulation (\<lambda>i. 0)
               \<lparr>options = [\<lparr>optName = ''only'', optWeight = ''3''\<rparr>], draws = 0, calls = [],
                alerts = [], simulationResult = []\<rparr> = Inr s'
          \<and> alerts s' = [NeedTwoOptions] \<and> calls s' = [] \<and> draws s' = 0 \<and> simulationResult s' = [])"
proof -
  let ?s = "\<lparr>options = [\<lparr>optName = ''only'', optWeight = ''3''\<rparr>], draws = 0, calls = [],
             alerts = [], simulationResult = []\<rparr>"
  have h: "length (options ?s) < 2" by simp
  from too_few_options_no_trials [OF h, of "\<lambda>i. 0"]
  obtain s' where "runSimulation (\<lambda>i. 0) ?s = Inr s'" "alerts s' = alerts ?s @ [NeedTwoOptions]"
    "calls s' = calls ?s" "draws s' = draws ?s" "simulationResult s' = simulationResult ?s"
    by blast
  then have "runSimulation (\<lambda>i. 0) ?s = Inr s' \<and> alerts s' = [NeedTwoOptions] \<and> calls s' = []
      \<and> draws s' = 0 \<and> simulationResult s' = []" by simp
  with h show ?thesis by blast
qed








end
